theory Spec2Isabelle
  imports Complex_Main "HOL-Library.Sublist"
begin

section \<open>JavaScript strings\<close>

text \<open>
  A JavaScript string is a sequence of UTF-16 code units, the integers from 0 to 65535,
  and \<^verbatim>\<open>s.length\<close> is the number of its code units. \<open>str\<close> gives the code units of a literal of the source; every literal
  of the source but one is ASCII, where a character is one code unit.
\<close>

type_synonym codeUnit = int

type_synonym jsString = "codeUnit list"

definition str :: "string \<Rightarrow> jsString" where
  "str s = map of_char s"

text \<open>
  The library functions whose result depends on the Unicode character database are
  parameters of the model: \<^verbatim>\<open>String.prototype.toLowerCase\<close>, \<^verbatim>\<open>String.prototype.toUpperCase\<close>,
  and the set of code units that \<^verbatim>\<open>\s\<close> matches and \<^verbatim>\<open>trim\<close> removes (white space and line
  terminators).
\<close>

record builtins =
  toLowerCase :: "jsString \<Rightarrow> jsString"
  toUpperCase :: "jsString \<Rightarrow> jsString"
  isWhiteSpace :: "codeUnit \<Rightarrow> bool"

text \<open>The character classes \<^verbatim>\<open>[A-Z]\<close> and \<^verbatim>\<open>[a-z]\<close> of a regular expression.\<close>

definition isUpperAZ :: "codeUnit \<Rightarrow> bool" where
  "isUpperAZ c = (65 \<le> c \<and> c \<le> 90)"

definition isLowerAZ :: "codeUnit \<Rightarrow> bool" where
  "isLowerAZ c = (97 \<le> c \<and> c \<le> 122)"

text \<open>
  How a regular expression with the flag \<^verbatim>\<open>i\<close> and without the flag \<^verbatim>\<open>u\<close> compares a
  code unit with an ASCII letter of the pattern: the two cases of the letter match it,
  and no code unit from 128 on matches an ASCII letter.
\<close>

definition foldAZ :: "codeUnit \<Rightarrow> codeUnit" where
  "foldAZ c = (if isUpperAZ c then c + 32 else c)"

definition foldCase :: "jsString \<Rightarrow> jsString" where
  "foldCase s = map foldAZ s"

text \<open>\<^verbatim>\<open>s.includes(k)\<close>: \<open>k\<close> occurs in \<open>s\<close> as a contiguous substring.\<close>

fun stringIncludes :: "jsString \<Rightarrow> jsString \<Rightarrow> bool" where
  "stringIncludes [] k = (k = [])"
| "stringIncludes (c # cs) k = (prefix k (c # cs) \<or> stringIncludes cs k)"

text \<open>\<^verbatim>\<open>s.split(" ")\<close>: the pieces between single spaces; never the empty list.\<close>

fun split :: "jsString \<Rightarrow> jsString list" where
  "split [] = [[]]"
| "split (c # cs) =
     (if c = 32 then [] # split cs
      else (case split cs of [] \<Rightarrow> [[c]] | w # ws \<Rightarrow> (c # w) # ws))"

text \<open>\<^verbatim>\<open>xs.join(sep)\<close>\<close>

fun join :: "jsString \<Rightarrow> jsString list \<Rightarrow> jsString" where
  "join sep [] = []"
| "join sep [x] = x"
| "join sep (x # y # ys) = x @ sep @ join sep (y # ys)"

text \<open>
  \<^verbatim>\<open>Array.from(new Set(xs))\<close>: a set keeps its members in the order of their first
  insertion, and inserting a member again changes nothing.
\<close>

fun setInsertAll :: "'a list \<Rightarrow> 'a list \<Rightarrow> 'a list" where
  "setInsertAll seen [] = seen"
| "setInsertAll seen (x # xs) =
     setInsertAll (if x \<in> set seen then seen else seen @ [x]) xs"

definition arrayFromSet :: "'a list \<Rightarrow> 'a list" where
  "arrayFromSet xs = setInsertAll [] xs"

section \<open>The pattern catalog\<close>

record pattern =
  keywordList :: "jsString list"
  description :: jsString

definition urgentLanguage :: pattern where
  "urgentLanguage = \<lparr>keywordList = map str
     [''urgent'', ''immediately'', ''act now'', ''limited time'', ''expires'', ''hurry'',
      ''today only'', ''last chance'', ''final notice'', ''suspended'', ''locked'',
      ''expire''],
   description = str ''Urgent or time-pressured language''\<rparr>"

definition paymentRequest :: pattern where
  "paymentRequest = \<lparr>keywordList = map str
     [''wire transfer'', ''gift card'', ''bitcoin'', ''crypto'', ''payment'',
      ''send money'', ''pay now'', ''invoice'', ''western union'', ''paypal'', ''venmo'',
      ''cash app'', ''zelle''],
   description = str ''Requests for payment or financial information''\<rparr>"

definition impersonation :: pattern where
  "impersonation = \<lparr>keywordList = map str
     [''verify account'', ''confirm identity'', ''update information'',
      ''security alert'', ''unusual activity'', ''click here'', ''log in'',
      ''reset password'', ''suspended account'', ''unauthorized access''],
   description = str ''Impersonation of official organizations''\<rparr>"

definition prizes :: pattern where
  "prizes = \<lparr>keywordList = map str
     [''you've won'', ''congratulations'', ''winner'', ''prize'', ''lottery'',
      ''claim your'', ''free gift'', ''selected'', ''lucky''],
   description = str ''Too-good-to-be-true offers or prizes''\<rparr>"

definition threats :: pattern where
  "threats = \<lparr>keywordList = map str
     [''legal action'', ''arrest'', ''warrant'', ''police'', ''lawsuit'', ''court'',
      ''penalty'', ''fine'', ''consequences'', ''investigation''],
   description = str ''Threats or legal intimidation''\<rparr>"

text \<open>\<^verbatim>\<open>Object.entries(SCAM_PATTERNS)\<close>: the entries in the order the object literal declares them.\<close>

definition SCAM_PATTERNS :: "(string \<times> pattern) list" where
  "SCAM_PATTERNS =
     [(''urgentLanguage'', urgentLanguage), (''paymentRequest'', paymentRequest),
      (''impersonation'', impersonation), (''prizes'', prizes), (''threats'', threats)]"

definition personalInfoKeywords :: "jsString list" where
  "personalInfoKeywords = map str
     [''social security'', ''ssn'', ''credit card'', ''bank account'', ''password'',
      ''pin'', ''date of birth'']"

section \<open>The heuristic scorer\<close>

datatype riskLevel = Low | Medium | High

record ScamAnalysisResult =
  riskScore :: int
  riskLevel :: riskLevel
  explanation :: jsString
  patterns :: "jsString list"
  suspiciousPhrases :: "jsString list"

text \<open>
  The three locals that \<^verbatim>\<open>analyzeHeuristically\<close> updates as it goes: \<^verbatim>\<open>detectedPatterns\<close>,
  \<^verbatim>\<open>suspiciousPhrases\<close> (here \<open>collectedPhrases\<close>) and \<^verbatim>\<open>riskScore\<close> (here \<open>runningScore\<close>).
\<close>

record scorer =
  detectedPatterns :: "jsString list"
  collectedPhrases :: "jsString list"
  runningScore :: int

definition initialScorer :: scorer where
  "initialScorer = \<lparr>detectedPatterns = [], collectedPhrases = [], runningScore = 0\<rparr>"

definition matchedKeywords :: "builtins \<Rightarrow> jsString \<Rightarrow> pattern \<Rightarrow> jsString list" where
  "matchedKeywords B messageLower p =
     filter (\<lambda>keyword. stringIncludes messageLower (toLowerCase B keyword)) (keywordList p)"

text \<open>The body of the loop over the catalog.\<close>

definition checkPattern :: "builtins \<Rightarrow> jsString \<Rightarrow> scorer \<Rightarrow> pattern \<Rightarrow> scorer" where
  "checkPattern B messageLower st p =
     (let matched = matchedKeywords B messageLower p in
      if length matched > 0
      then st\<lparr>detectedPatterns := detectedPatterns st @ [description p],
              collectedPhrases := collectedPhrases st @ take 3 matched,
              runningScore := runningScore st + (15 + int (length matched) * 5)\<rparr>
      else st)"

fun checkPatterns ::
  "builtins \<Rightarrow> jsString \<Rightarrow> scorer \<Rightarrow> (string \<times> pattern) list \<Rightarrow> scorer" where
  "checkPatterns B messageLower st [] = st"
| "checkPatterns B messageLower st ((key, p) # entries) =
     checkPatterns B messageLower (checkPattern B messageLower st p) entries"

text \<open>\<^verbatim>\<open>(message.match(/!/g) || []).length > 2\<close>; the code unit of \<^verbatim>\<open>!\<close> is 33.\<close>

definition hasMultipleExclamations :: "jsString \<Rightarrow> bool" where
  "hasMultipleExclamations message = (length (filter (\<lambda>c. c = 33) message) > 2)"

definition hasAllCaps :: "builtins \<Rightarrow> jsString \<Rightarrow> bool" where
  "hasAllCaps B message =
     (length (filter (\<lambda>word. length word > 3 \<and> word = toUpperCase B word) (split message))
        > 2)"

text \<open>\<^verbatim>\<open>/\s{3,}/.test(message)\<close>\<close>

fun hasWhitespaceRun :: "builtins \<Rightarrow> jsString \<Rightarrow> bool" where
  "hasWhitespaceRun B (a # b # c # rest) =
     ((isWhiteSpace B a \<and> isWhiteSpace B b \<and> isWhiteSpace B c) \<or>
      hasWhitespaceRun B (b # c # rest))"
| "hasWhitespaceRun B _ = False"

text \<open>\<^verbatim>\<open>/[a-z][A-Z]/.test(message)\<close>\<close>

fun hasCaseBreak :: "jsString \<Rightarrow> bool" where
  "hasCaseBreak (a # b # rest) = ((isLowerAZ a \<and> isUpperAZ b) \<or> hasCaseBreak (b # rest))"
| "hasCaseBreak _ = False"

definition hasPoorSpacing :: "builtins \<Rightarrow> jsString \<Rightarrow> bool" where
  "hasPoorSpacing B message = (hasWhitespaceRun B message \<or> hasCaseBreak message)"

definition checkFormatting :: "builtins \<Rightarrow> jsString \<Rightarrow> scorer \<Rightarrow> scorer" where
  "checkFormatting B message st =
     (if hasMultipleExclamations message \<or> hasAllCaps B message \<or> hasPoorSpacing B message
      then st\<lparr>detectedPatterns :=
                detectedPatterns st @ [str ''Poor grammar or unusual formatting''],
              runningScore := runningScore st + 10\<rparr>
      else st)"

text \<open>
  A regular expression that is an alternation of ASCII literals under the flag \<^verbatim>\<open>i\<close>: it
  matches when one of the literals occurs in the text, ASCII letters compared without
  regard to case.
\<close>

definition testAnyIgnoreCase :: "jsString list \<Rightarrow> jsString \<Rightarrow> bool" where
  "testAnyIgnoreCase literals s =
     list_ex (\<lambda>l. stringIncludes (foldCase s) (foldCase l)) literals"

text \<open>\<^verbatim>\<open>/https?:\/\/|www\./i.test(message)\<close>\<close>

definition hasLinks :: "jsString \<Rightarrow> bool" where
  "hasLinks message =
     testAnyIgnoreCase [str ''http://'', str ''https://'', str ''www.''] message"

text \<open>\<^verbatim>\<open>/(bit\.ly|tinyurl|goo\.gl)/i.test(message)\<close>\<close>

definition hasShortenedLinks :: "jsString \<Rightarrow> bool" where
  "hasShortenedLinks message =
     testAnyIgnoreCase [str ''bit.ly'', str ''tinyurl'', str ''goo.gl''] message"

definition checkLinks :: "jsString \<Rightarrow> scorer \<Rightarrow> scorer" where
  "checkLinks message st =
     (if hasShortenedLinks message
      then st\<lparr>detectedPatterns := detectedPatterns st @ [str ''Shortened or suspicious URLs''],
              runningScore := runningScore st + 20\<rparr>
      else if hasLinks message \<and> length (detectedPatterns st) > 0
      then st\<lparr>detectedPatterns :=
                detectedPatterns st @ [str ''Contains links (verify before clicking)''],
              runningScore := runningScore st + 10\<rparr>
      else st)"

definition hasPersonalInfoRequest :: "jsString \<Rightarrow> bool" where
  "hasPersonalInfoRequest messageLower =
     list_ex (\<lambda>keyword. stringIncludes messageLower keyword) personalInfoKeywords"

definition checkPersonalInfo :: "jsString \<Rightarrow> scorer \<Rightarrow> scorer" where
  "checkPersonalInfo messageLower st =
     (if hasPersonalInfoRequest messageLower
      then st\<lparr>detectedPatterns :=
                detectedPatterns st @ [str ''Requests for sensitive personal information''],
              runningScore := runningScore st + 25\<rparr>
      else st)"

text \<open>The locals after the four checks, in the order the function makes them.\<close>

definition afterPatterns :: "builtins \<Rightarrow> jsString \<Rightarrow> scorer" where
  "afterPatterns B message =
     checkPatterns B (toLowerCase B message) initialScorer SCAM_PATTERNS"

definition afterFormatting :: "builtins \<Rightarrow> jsString \<Rightarrow> scorer" where
  "afterFormatting B message = checkFormatting B message (afterPatterns B message)"

definition afterLinks :: "builtins \<Rightarrow> jsString \<Rightarrow> scorer" where
  "afterLinks B message = checkLinks message (afterFormatting B message)"

definition afterPersonalInfo :: "builtins \<Rightarrow> jsString \<Rightarrow> scorer" where
  "afterPersonalInfo B message =
     checkPersonalInfo (toLowerCase B message) (afterLinks B message)"

text \<open>Cap at 100, then the adjustment for a short message with no pattern.\<close>

definition finalScore :: "jsString \<Rightarrow> scorer \<Rightarrow> int" where
  "finalScore message st =
     (let capped = min 100 (runningScore st) in
      if length message < 50 \<and> length (detectedPatterns st) = 0
      then max 0 (capped - 10) else capped)"

definition levelOf :: "int \<Rightarrow> riskLevel" where
  "levelOf score = (if score \<le> 30 then Low else if score \<le> 70 then Medium else High)"

text \<open>
  The warning sign and its variation selector that open the high-risk explanation:
  the code units U+26A0 and U+FE0F.
\<close>

definition warningSign :: jsString where
  "warningSign = [0x26A0, 0xFE0F]"

definition explain :: "builtins \<Rightarrow> int \<Rightarrow> riskLevel \<Rightarrow> jsString list \<Rightarrow> jsString" where
  "explain B score level detected =
     (if score = 0 then
        str ''This message appears to be legitimate with no obvious scam indicators detected. However, always exercise caution when sharing personal information or clicking on links.''
      else if level = Low then
        str ''This message shows minimal risk indicators. '' @
        (if length detected > 0
         then str ''While some patterns were detected, they may be used in legitimate contexts.''
         else str ''No significant scam patterns were found.'') @
        str '' Always verify the sender's identity before taking action.''
      else if level = Medium then
        str ''This message contains several concerning elements that are commonly found in scam attempts. The use of '' @
        (case detected of
           [] \<Rightarrow> str ''suspicious language''
         | p # _ \<Rightarrow> if toLowerCase B p = [] then str ''suspicious language''
                    else toLowerCase B p) @
        str '' and other patterns suggest caution is warranted. Verify the sender through official channels before responding or clicking any links.''
      else
        warningSign @
        str '' This message exhibits multiple high-risk characteristics typical of scam attempts. The combination of '' @
        join (str '' and '') (map (toLowerCase B) (take 2 detected)) @
        str '' are major red flags. Do not click any links, provide personal information, or send money. Contact the organization directly using official contact information to verify.'')"

definition analyzeHeuristically :: "builtins \<Rightarrow> jsString \<Rightarrow> ScamAnalysisResult" where
  "analyzeHeuristically B message =
     (let st = afterPersonalInfo B message;
          score = finalScore message st;
          level = levelOf score;
          uniquePhrases = take 8 (arrayFromSet (collectedPhrases st))
      in \<lparr>riskScore = score,
          riskLevel = level,
          explanation = explain B score level (detectedPatterns st),
          patterns = (if length (detectedPatterns st) > 0 then detectedPatterns st
                      else [str ''No scam patterns detected'']),
          suspiciousPhrases = uniquePhrases\<rparr>)"

section \<open>The remote classifier and the entry point\<close>

text \<open>
  What \<^verbatim>\<open>JSON.parse\<close> can return. An object is the list of its own properties, each name
  once.
\<close>

datatype js_value =
    JNull
  | JBoolean bool
  | JNumber real
  | JString jsString
  | JArray "js_value list"
  | JObject "(jsString \<times> js_value) list"

text \<open>What the body of the \<^verbatim>\<open>try\<close> block can throw.\<close>

datatype js_error = RemoteCallFailed | SyntaxError | TypeError | InvalidStructure

text \<open>
  Reading the property \<^verbatim>\<open>riskScore\<close> or \<^verbatim>\<open>riskLevel\<close> of a parsed value: \<^verbatim>\<open>null\<close> throws,
  an object gives its own property or \<^verbatim>\<open>undefined\<close> (here \<open>None\<close>), and every other value
  gives \<^verbatim>\<open>undefined\<close>, since neither name is a property of a boolean, number, string or
  array.
\<close>

fun getProperty :: "js_value \<Rightarrow> jsString \<Rightarrow> js_error + js_value option" where
  "getProperty JNull name = Inl TypeError"
| "getProperty (JObject props) name = Inr (map_of props name)"
| "getProperty (JBoolean b) name = Inr None"
| "getProperty (JNumber n) name = Inr None"
| "getProperty (JString s) name = Inr None"
| "getProperty (JArray vs) name = Inr None"

text \<open>\<^verbatim>\<open>typeof v === 'number'\<close>\<close>

fun isNumber :: "js_value option \<Rightarrow> bool" where
  "isNumber (Some (JNumber n)) = True"
| "isNumber _ = False"

text \<open>The values that \<^verbatim>\<open>!v\<close> does not negate to true.\<close>

fun truthy :: "js_value option \<Rightarrow> bool" where
  "truthy None = False"
| "truthy (Some JNull) = False"
| "truthy (Some (JBoolean b)) = b"
| "truthy (Some (JNumber n)) = (n \<noteq> 0)"
| "truthy (Some (JString s)) = (s \<noteq> [])"
| "truthy (Some (JArray vs)) = True"
| "truthy (Some (JObject props)) = True"

definition newline :: jsString where
  "newline = [10]"

definition buildPrompt :: "jsString \<Rightarrow> jsString" where
  \<open>buildPrompt message = join newline
     [[],
      str ''      Analyze the following message for scam indicators. Act as a cybersecurity expert.'',
      str ''      '',
      str ''      Message: "'' @ message @ str ''"'',
      str ''      '',
      str ''      Return a JSON object with the following structure:'',
      str ''      {'',
      str ''        "riskScore": number (0-100),'',
      str ''        "riskLevel": "low" | "medium" | "high",'',
      str ''        "explanation": "string (2-3 sentences explaining why)",'',
      str ''        "patterns": ["string", "string"] (list of detected scam patterns, e.g., "Urgency", "Phishing"),'',
      str ''        "suspiciousPhrases": ["string", "string"] (exact phrases from the text that are suspicious)'',
      str ''      }'',
      [],
      str ''      Strictly return ONLY the JSON object. Do not include markdown formatting like ```json.'',
      str ''    '']\<close>

text \<open>
  \<^verbatim>\<open>text.replace(/```json\n?|\n?```/g, "")\<close>: scanning from the left, at each position the first
  alternative is tried before the second, and \<^verbatim>\<open>\n?\<close> takes the line feed when it can.
\<close>

fun removeFences :: "jsString \<Rightarrow> jsString" where
  "removeFences [] = []"
| "removeFences (c # cs) =
     (if prefix (str ''```json'' @ newline) (c # cs) then removeFences (drop 7 cs)
      else if prefix (str ''```json'') (c # cs) then removeFences (drop 6 cs)
      else if prefix (newline @ str ''```'') (c # cs) then removeFences (drop 3 cs)
      else if prefix (str ''```'') (c # cs) then removeFences (drop 2 cs)
      else c # removeFences cs)"

text \<open>\<^verbatim>\<open>s.trim()\<close> removes from both ends the code units that \<^verbatim>\<open>\s\<close> matches.\<close>

definition trim :: "builtins \<Rightarrow> jsString \<Rightarrow> jsString" where
  "trim B s = rev (dropWhile (isWhiteSpace B) (rev (dropWhile (isWhiteSpace B) s)))"

text \<open>
  The body of the \<^verbatim>\<open>try\<close> block. The two calls into libraries are parameters: the
  text-completion service (given the prompt, \<open>None\<close> when the call throws, else the text of
  the response) and \<^verbatim>\<open>JSON.parse\<close> (\<open>None\<close> when it throws).
\<close>

definition askRemote ::
  "builtins \<Rightarrow> (jsString \<Rightarrow> jsString option) \<Rightarrow> (jsString \<Rightarrow> js_value option) \<Rightarrow> jsString
     \<Rightarrow> js_error + js_value"
where
  "askRemote B generateContent JSON_parse message =
     (case generateContent (buildPrompt message) of
        None \<Rightarrow> Inl RemoteCallFailed
      | Some reply \<Rightarrow>
          (let jsonStr = trim B (removeFences reply) in
           case JSON_parse jsonStr of
             None \<Rightarrow> Inl SyntaxError
           | Some analysis \<Rightarrow>
               (case getProperty analysis (str ''riskScore'') of
                  Inl e \<Rightarrow> Inl e
                | Inr score \<Rightarrow>
                    if \<not> isNumber score then Inl InvalidStructure
                    else (case getProperty analysis (str ''riskLevel'') of
                            Inl e \<Rightarrow> Inl e
                          | Inr level \<Rightarrow>
                              if \<not> truthy level then Inl InvalidStructure
                              else Inr analysis))))"

text \<open>\<^verbatim>\<open>!process.env.GEMINI_API_KEY\<close>: the variable is unset or the empty string.\<close>

definition credentialMissing :: "jsString option \<Rightarrow> bool" where
  "credentialMissing apiKey = (case apiKey of None \<Rightarrow> True | Some k \<Rightarrow> k = [])"

definition levelName :: "riskLevel \<Rightarrow> jsString" where
  "levelName l =
     (case l of Low \<Rightarrow> str ''low'' | Medium \<Rightarrow> str ''medium'' | High \<Rightarrow> str ''high'')"

text \<open>The object that the heuristic path returns, as a value of the same kind as a parsed one.\<close>

definition toObject :: "ScamAnalysisResult \<Rightarrow> js_value" where
  "toObject r =
     JObject [(str ''riskScore'', JNumber (of_int (riskScore r))),
              (str ''riskLevel'', JString (levelName (riskLevel r))),
              (str ''explanation'', JString (explanation r)),
              (str ''patterns'', JArray (map JString (patterns r))),
              (str ''suspiciousPhrases'', JArray (map JString (suspiciousPhrases r)))]"

text \<open>
  The promise that \<^verbatim>\<open>analyzeMessage\<close> returns: rejected with an error (\<open>Inl\<close>) or resolved
  with a verdict (\<open>Inr\<close>).
\<close>

definition analyzeMessage ::
  "builtins \<Rightarrow> jsString option \<Rightarrow> (jsString \<Rightarrow> jsString option) \<Rightarrow>
     (jsString \<Rightarrow> js_value option) \<Rightarrow> jsString \<Rightarrow> js_error + js_value"
where
  "analyzeMessage B apiKey generateContent JSON_parse message =
     (if credentialMissing apiKey then Inr (toObject (analyzeHeuristically B message))
      else (case askRemote B generateContent JSON_parse message of
              Inr analysis \<Rightarrow> Inr analysis
            | Inl error \<Rightarrow> Inr (toObject (analyzeHeuristically B message))))"

text \<open>A service, or a parser, that throws on every input, and one that answers the same to all.\<close>

definition alwaysThrows :: "jsString \<Rightarrow> 'a option" where
  "alwaysThrows input = None"

definition alwaysReturns :: "'a \<Rightarrow> jsString \<Rightarrow> 'a option" where
  "alwaysReturns v input = Some v"

section \<open>An instance of the library functions\<close>

text \<open>
  The case conversions and the white space of JavaScript on the strings made of ASCII,
  U+00A0 (no-break space), U+00C9 and U+00E9 (E with acute, capital and small) and U+212A
  (Kelvin sign, whose lower case is the ASCII letter k). On these code units the
  conversions of JavaScript work code unit by code unit.
\<close>

definition sampleLower :: "codeUnit \<Rightarrow> codeUnit" where
  "sampleLower c =
     (if isUpperAZ c then c + 32 else if c = 0xC9 then 0xE9 else if c = 0x212A then 107
      else c)"

definition sampleUpper :: "codeUnit \<Rightarrow> codeUnit" where
  "sampleUpper c = (if isLowerAZ c then c - 32 else if c = 0xE9 then 0xC9 else c)"

definition sampleSpace :: "codeUnit \<Rightarrow> bool" where
  "sampleSpace c = ((9 \<le> c \<and> c \<le> 13) \<or> c = 32 \<or> c = 0xA0)"

definition sampleBuiltins :: builtins where
  "sampleBuiltins =
     \<lparr>toLowerCase = map sampleLower, toUpperCase = map sampleUpper,
      isWhiteSpace = sampleSpace\<rparr>"

text \<open>
  Two messages for the instances: "loc", the Kelvin sign, "ed", which JavaScript lowercases
  to "locked"; and a message in capitals.
\<close>

definition kelvinMessage :: jsString where
  "kelvinMessage = str ''loc'' @ [0x212A] @ str ''ed''"

definition capitalsMessage :: jsString where
  "capitalsMessage = str ''URGENT Prize''"

text \<open>
  Further messages for the instances: "urgent luc", the Kelvin sign, "y", lowercased to
  "urgent lucky"; three words of four small E with acute; and the letters a and b with
  three no-break spaces between them.
\<close>

definition kelvinLuckyMessage :: jsString where
  "kelvinLuckyMessage = str ''urgent luc'' @ [0x212A] @ str ''y''"

definition accentedMessage :: jsString where
  "accentedMessage =
     [0xE9, 0xE9, 0xE9, 0xE9, 32, 0xE9, 0xE9, 0xE9, 0xE9, 32, 0xE9, 0xE9, 0xE9, 0xE9]"

definition nbspMessage :: jsString where
  "nbspMessage = str ''a'' @ [0xA0, 0xA0, 0xA0] @ str ''b''"

section \<open>The specification's notions\<close>

text \<open>The five categories in the order the catalog declares them.\<close>

definition catalog :: "pattern list" where
  "catalog = [urgentLanguage, paymentRequest, impersonation, prizes, threats]"

text \<open>
  What the library guarantees of \<^verbatim>\<open>keyword.toLowerCase()\<close> on the catalog: every keyword
  is written in lower-case ASCII, and lowercasing leaves it as it is.
\<close>

definition keywordsAreLowercase :: "builtins \<Rightarrow> bool" where
  "keywordsAreLowercase B =
     list_all (\<lambda>p. list_all (\<lambda>k. toLowerCase B k = k) (keywordList p)) catalog"

text \<open>The keywords of a category that are substrings of the lowercased message, in list order.\<close>

definition keywordsFound :: "builtins \<Rightarrow> jsString \<Rightarrow> pattern \<Rightarrow> jsString list" where
  "keywordsFound B message p =
     filter (\<lambda>k. sublist k (toLowerCase B message)) (keywordList p)"

text \<open>The entries of a list that do not occur earlier in it, in their order.\<close>

definition firstOccurrences :: "'a list \<Rightarrow> 'a list" where
  "firstOccurrences xs =
     map (\<lambda>i. xs ! i) (filter (\<lambda>i. xs ! i \<notin> set (take i xs)) [0..<length xs])"

text \<open>The number of positions of \<open>s\<close> at which \<open>k\<close> starts.\<close>

fun occurrences :: "jsString \<Rightarrow> jsString \<Rightarrow> nat" where
  "occurrences k [] = (if k = [] then 1 else 0)"
| "occurrences k (c # cs) = (if prefix k (c # cs) then 1 else 0) + occurrences k cs"

text \<open>No catalog keyword and no sensitive-information keyword is in the lowercased message.\<close>

definition noKeywordMatches :: "builtins \<Rightarrow> jsString \<Rightarrow> bool" where
  "noKeywordMatches B message =
     (list_all (\<lambda>p. keywordsFound B message p = []) catalog \<and>
      list_all (\<lambda>k. \<not> sublist k (toLowerCase B message)) personalInfoKeywords)"

text \<open>The formatting anomaly of the third step of the scorer.\<close>

definition formattingAnomaly :: "builtins \<Rightarrow> jsString \<Rightarrow> bool" where
  "formattingAnomaly B message =
     (hasMultipleExclamations message \<or> hasAllCaps B message \<or> hasPoorSpacing B message)"

text \<open>
  The keyword "urgent" is the one signal of a message: no other keyword of the catalog, no
  formatting anomaly, no link and no sensitive-information keyword.
\<close>

definition urgentIsOnlySignal :: "builtins \<Rightarrow> jsString \<Rightarrow> bool" where
  "urgentIsOnlySignal B message =
     (keywordsFound B message urgentLanguage = [str ''urgent''] \<and>
      keywordsFound B message paymentRequest = [] \<and>
      keywordsFound B message impersonation = [] \<and>
      keywordsFound B message prizes = [] \<and>
      keywordsFound B message threats = [] \<and>
      \<not> formattingAnomaly B message \<and>
      \<not> hasShortenedLinks message \<and> \<not> hasLinks message \<and>
      \<not> hasPersonalInfoRequest (toLowerCase B message))"

text \<open>
  The invariants of the verdict data model: the score is an integer from 0 to 100, the
  level is one of the three names, the explanation is a string that is not empty.
\<close>

definition verdictInvariant :: "js_value \<Rightarrow> bool" where
  "verdictInvariant v =
     (case v of
        JObject props \<Rightarrow>
          (case map_of props (str ''riskScore'') of
             Some (JNumber n) \<Rightarrow> n \<in> \<int> \<and> 0 \<le> n \<and> n \<le> 100
           | _ \<Rightarrow> False) \<and>
          (case map_of props (str ''riskLevel'') of
             Some (JString s) \<Rightarrow> s = str ''low'' \<or> s = str ''medium'' \<or> s = str ''high''
           | _ \<Rightarrow> False) \<and>
          (case map_of props (str ''explanation'') of
             Some (JString s) \<Rightarrow> s \<noteq> []
           | _ \<Rightarrow> False)
      | _ \<Rightarrow> False)"

text \<open>What the entry point checks of a parsed response before it accepts it.\<close>

definition hasNumericScore :: "js_value \<Rightarrow> bool" where
  "hasNumericScore v =
     (case getProperty v (str ''riskScore'') of Inr s \<Rightarrow> isNumber s | Inl e \<Rightarrow> False)"

definition hasTierValue :: "js_value \<Rightarrow> bool" where
  "hasTierValue v =
     (case getProperty v (str ''riskLevel'') of Inr t \<Rightarrow> truthy t | Inl e \<Rightarrow> False)"

text \<open>
  The relation between the running score and the detected patterns that every check keeps:
  the score is not negative, it is zero exactly when no pattern was detected, and no
  detected pattern is the sentinel of the empty list.
\<close>

definition scoreTracksPatterns :: "scorer \<Rightarrow> bool" where
  "scoreTracksPatterns st =
     (0 \<le> runningScore st \<and>
      (detectedPatterns st = []) = (runningScore st = 0) \<and>
      str ''No scam patterns detected'' \<notin> set (detectedPatterns st))"

section \<open>The category loop\<close>

lemma stringIncludes_sublist: "stringIncludes s k = sublist k s"
  by (induction s) (simp_all add: sublist_Cons_right)

lemma catalog_entries: "map snd SCAM_PATTERNS = catalog"
  by (simp add: SCAM_PATTERNS_def catalog_def)

lemma catalog_lowercase:
  "keywordsAreLowercase B \<Longrightarrow> p \<in> set catalog \<Longrightarrow> k \<in> set (keywordList p) \<Longrightarrow>
   toLowerCase B k = k"
  by (simp add: keywordsAreLowercase_def list_all_iff)

lemma matchedKeywords_found:
  assumes "keywordsAreLowercase B" and "p \<in> set catalog"
  shows "matchedKeywords B (toLowerCase B m) p = keywordsFound B m p"
  unfolding matchedKeywords_def keywordsFound_def
  by (rule filter_cong) (simp_all add: stringIncludes_sublist catalog_lowercase [OF assms])

lemma checkPatterns_closed:
  "checkPatterns B ml st entries =
     st\<lparr>detectedPatterns := detectedPatterns st @
          map description (filter (\<lambda>p. matchedKeywords B ml p \<noteq> []) (map snd entries)),
        collectedPhrases := collectedPhrases st @
          concat (map (\<lambda>p. take 3 (matchedKeywords B ml p)) (map snd entries)),
        runningScore := runningScore st +
          (\<Sum>p\<leftarrow>map snd entries. if matchedKeywords B ml p = [] then 0
                                  else 15 + 5 * int (length (matchedKeywords B ml p)))\<rparr>"
proof (induction entries arbitrary: st)
  case Nil
  show ?case by simp
next
  case (Cons e entries)
  obtain key p where e: "e = (key, p)" by (cases e)
  show ?case
    by (simp add: e Cons.IH checkPattern_def Let_def)
qed

lemma afterPatterns_detected:
  assumes "keywordsAreLowercase B"
  shows "detectedPatterns (afterPatterns B m) =
     map description (filter (\<lambda>p. keywordsFound B m p \<noteq> []) catalog)"
proof -
  have eq: "filter (\<lambda>p. matchedKeywords B (toLowerCase B m) p \<noteq> []) catalog =
        filter (\<lambda>p. keywordsFound B m p \<noteq> []) catalog"
    by (rule filter_cong) (simp_all add: matchedKeywords_found [OF assms])
  show ?thesis
    by (simp add: afterPatterns_def checkPatterns_closed catalog_entries initialScorer_def eq)
qed

lemma afterPatterns_phrases:
  assumes "keywordsAreLowercase B"
  shows "collectedPhrases (afterPatterns B m) =
     concat (map (\<lambda>p. take 3 (keywordsFound B m p)) catalog)"
proof -
  have eq: "map (\<lambda>p. take 3 (matchedKeywords B (toLowerCase B m) p)) catalog =
        map (\<lambda>p. take 3 (keywordsFound B m p)) catalog"
    by (rule map_cong) (simp_all add: matchedKeywords_found [OF assms])
  show ?thesis
    by (simp add: afterPatterns_def checkPatterns_closed catalog_entries initialScorer_def eq)
qed

lemma afterPatterns_score:
  assumes "keywordsAreLowercase B"
  shows "runningScore (afterPatterns B m) =
     (\<Sum>p\<leftarrow>catalog. if keywordsFound B m p = [] then 0
                     else 15 + 5 * int (length (keywordsFound B m p)))"
proof -
  have eq: "map (\<lambda>p. if matchedKeywords B (toLowerCase B m) p = [] then 0
                  else 15 + 5 * int (length (matchedKeywords B (toLowerCase B m) p))) catalog =
        map (\<lambda>p. if keywordsFound B m p = [] then 0
                  else 15 + 5 * int (length (keywordsFound B m p))) catalog"
    by (rule map_cong) (simp_all add: matchedKeywords_found [OF assms])
  show ?thesis
    by (simp add: afterPatterns_def checkPatterns_closed catalog_entries initialScorer_def eq)
qed

text \<open>
  C1. For every message, the loop over the catalog visits the five categories in the order
  urgentLanguage, paymentRequest, impersonation, prizes, threats. After it, the detected
  patterns are the descriptions of the categories that have a keyword in the lowercased
  message, in that order; the phrase accumulator holds, category after category, the first
  three such keywords in keyword-list order; and the running score is the sum, over the
  categories with a match, of 15 plus 5 times the number of their matched keywords. A
  category with no match adds nothing to any of the three. The lowercased message is
  what the library's \<^verbatim>\<open>toLowerCase\<close> returns, whatever it does outside ASCII.
\<close>

theorem category_scoring:
  assumes "keywordsAreLowercase B"
  shows "map fst SCAM_PATTERNS =
     [''urgentLanguage'', ''paymentRequest'', ''impersonation'', ''prizes'', ''threats''] \<and>
   map snd SCAM_PATTERNS = catalog \<and>
   detectedPatterns (afterPatterns B m) =
     map description (filter (\<lambda>p. keywordsFound B m p \<noteq> []) catalog) \<and>
   collectedPhrases (afterPatterns B m) =
     concat (map (\<lambda>p. take 3 (keywordsFound B m p)) catalog) \<and>
   runningScore (afterPatterns B m) =
     (\<Sum>p\<leftarrow>catalog. if keywordsFound B m p = [] then 0
                     else 15 + 5 * int (length (keywordsFound B m p)))"
proof -
  have "map fst SCAM_PATTERNS =
     [''urgentLanguage'', ''paymentRequest'', ''impersonation'', ''prizes'', ''threats'']"
    by (simp add: SCAM_PATTERNS_def)
  then show ?thesis
    using catalog_entries afterPatterns_detected [OF assms] afterPatterns_phrases [OF assms]
      afterPatterns_score [OF assms]
    by blast
qed

text \<open>
  The instances: the message with the Kelvin sign matches "locked" and nothing else; the
  message in capitals matches "urgent" and "prize".
\<close>

theorem category_scoring_witness:
  "keywordsAreLowercase sampleBuiltins \<and>
   detectedPatterns (afterPatterns sampleBuiltins kelvinMessage) =
     [str ''Urgent or time-pressured language''] \<and>
   collectedPhrases (afterPatterns sampleBuiltins kelvinMessage) = [str ''locked''] \<and>
   runningScore (afterPatterns sampleBuiltins kelvinMessage) = 20 \<and>
   detectedPatterns (afterPatterns sampleBuiltins capitalsMessage) =
     [str ''Urgent or time-pressured language'', str ''Too-good-to-be-true offers or prizes''] \<and>
   collectedPhrases (afterPatterns sampleBuiltins capitalsMessage) =
     [str ''urgent'', str ''prize''] \<and>
   runningScore (afterPatterns sampleBuiltins capitalsMessage) = 40"
proof -
  have h: "keywordsAreLowercase sampleBuiltins"
    by code_simp
  note k = category_scoring [OF h, of kelvinMessage]
  note c = category_scoring [OF h, of capitalsMessage]
  have k1: "map description (filter (\<lambda>p. keywordsFound sampleBuiltins kelvinMessage p \<noteq> [])
      catalog) = [str ''Urgent or time-pressured language'']"
    by code_simp
  have k2: "concat (map (\<lambda>p. take 3 (keywordsFound sampleBuiltins kelvinMessage p)) catalog) =
      [str ''locked'']"
    by code_simp
  have k3: "(\<Sum>p\<leftarrow>catalog. if keywordsFound sampleBuiltins kelvinMessage p = [] then 0
      else 15 + 5 * int (length (keywordsFound sampleBuiltins kelvinMessage p))) = 20"
    by code_simp
  have c1: "map description (filter (\<lambda>p. keywordsFound sampleBuiltins capitalsMessage p \<noteq> [])
      catalog) =
      [str ''Urgent or time-pressured language'', str ''Too-good-to-be-true offers or prizes'']"
    by code_simp
  have c2: "concat (map (\<lambda>p. take 3 (keywordsFound sampleBuiltins capitalsMessage p)) catalog) =
      [str ''urgent'', str ''prize'']"
    by code_simp
  have c3: "(\<Sum>p\<leftarrow>catalog. if keywordsFound sampleBuiltins capitalsMessage p = [] then 0
      else 15 + 5 * int (length (keywordsFound sampleBuiltins capitalsMessage p))) = 40"
    by code_simp
  show ?thesis
    using h k [unfolded k1 k2 k3] c [unfolded c1 c2 c3]
    by (elim conjE, intro conjI) assumption+
qed

subsection \<open>The phrases of the verdict\<close>

lemma firstOccurrences_Nil: "firstOccurrences [] = []"
  by (simp add: firstOccurrences_def)

lemma firstOccurrences_Cons:
  "firstOccurrences (x # xs) = x # filter (\<lambda>y. y \<noteq> x) (firstOccurrences xs)"
proof -
  have idx: "[0..<length (x # xs)] = 0 # map Suc [0..<length xs]"
    by (simp add: upt_conv_Cons map_Suc_upt del: upt_Suc)
  show ?thesis
    unfolding firstOccurrences_def idx
    by (simp add: filter_map comp_def conj_commute)
qed

lemma setInsertAll_firstOccurrences:
  "setInsertAll seen xs = seen @ filter (\<lambda>x. x \<notin> set seen) (firstOccurrences xs)"
proof (induction xs arbitrary: seen)
  case Nil
  show ?case by (simp add: firstOccurrences_Nil)
next
  case (Cons x xs)
  show ?case
    by (auto simp: Cons.IH firstOccurrences_Cons intro: filter_cong)
qed

lemma arrayFromSet_firstOccurrences: "arrayFromSet xs = firstOccurrences xs"
  by (simp add: arrayFromSet_def setInsertAll_firstOccurrences)

lemma distinct_firstOccurrences: "distinct (firstOccurrences xs)"
  by (induction xs) (simp_all add: firstOccurrences_Nil firstOccurrences_Cons)

lemma later_checks_keep_phrases:
  "collectedPhrases (afterPersonalInfo B m) = collectedPhrases (afterPatterns B m)"
  by (simp add: afterPersonalInfo_def afterLinks_def afterFormatting_def
      checkPersonalInfo_def checkLinks_def checkFormatting_def)

lemma phrases_of_verdict:
  "suspiciousPhrases (analyzeHeuristically B m) =
     take 8 (firstOccurrences (collectedPhrases (afterPatterns B m)))"
  by (simp add: analyzeHeuristically_def Let_def arrayFromSet_firstOccurrences
      later_checks_keep_phrases)

text \<open>
  C5. For every message, the suspicious phrases of the heuristic verdict are at most 8, no
  phrase occurs twice, and they are the first 8 of the accumulated keywords in the order in
  which each was first accumulated; the accumulated keywords are those of C1.
\<close>

theorem phrases_unique_capped:
  "length (suspiciousPhrases (analyzeHeuristically B m)) \<le> 8 \<and>
   distinct (suspiciousPhrases (analyzeHeuristically B m)) \<and>
   suspiciousPhrases (analyzeHeuristically B m) =
     take 8 (firstOccurrences (collectedPhrases (afterPatterns B m))) \<and>
   (keywordsAreLowercase B \<longrightarrow>
      suspiciousPhrases (analyzeHeuristically B m) =
        take 8 (firstOccurrences (concat (map (\<lambda>p. take 3 (keywordsFound B m p)) catalog))))"
  by (simp add: phrases_of_verdict distinct_firstOccurrences afterPatterns_phrases)

theorem phrases_unique_capped_witness:
  "keywordsAreLowercase sampleBuiltins \<and>
   suspiciousPhrases (analyzeHeuristically sampleBuiltins capitalsMessage) =
     [str ''urgent'', str ''prize'']"
proof -
  have h: "keywordsAreLowercase sampleBuiltins"
    by code_simp
  have r: "take 8 (firstOccurrences
      (concat (map (\<lambda>p. take 3 (keywordsFound sampleBuiltins capitalsMessage p)) catalog))) =
      [str ''urgent'', str ''prize'']"
    by code_simp
  note t = phrases_unique_capped [of sampleBuiltins capitalsMessage, THEN conjunct2,
      THEN conjunct2, THEN conjunct2, THEN mp, OF h]
  show ?thesis
    using h t [unfolded r] by (intro conjI)
qed

section \<open>Score and patterns move together\<close>

lemma tracks_initial: "scoreTracksPatterns initialScorer"
  by (simp add: scoreTracksPatterns_def initialScorer_def)

lemma tracks_checkPattern:
  assumes "scoreTracksPatterns st" and "description p \<noteq> str ''No scam patterns detected''"
  shows "scoreTracksPatterns (checkPattern B ml st p)"
  using assms by (auto simp: scoreTracksPatterns_def checkPattern_def Let_def)

lemma tracks_checkPatterns:
  assumes "scoreTracksPatterns st"
    and "list_all (\<lambda>e. description (snd e) \<noteq> str ''No scam patterns detected'') entries"
  shows "scoreTracksPatterns (checkPatterns B ml st entries)"
  using assms
proof (induction entries arbitrary: st)
  case Nil
  then show ?case by simp
next
  case (Cons e entries)
  obtain key p where e: "e = (key, p)" by (cases e)
  from Cons.prems have "scoreTracksPatterns (checkPattern B ml st p)"
    by (simp add: e tracks_checkPattern)
  with Cons show ?case by (simp add: e)
qed

lemma catalog_descriptions:
  "list_all (\<lambda>e. description (snd e) \<noteq> str ''No scam patterns detected'') SCAM_PATTERNS"
  by (simp add: SCAM_PATTERNS_def urgentLanguage_def paymentRequest_def impersonation_def
      prizes_def threats_def str_def)

lemma sentinel_is_no_check_pattern:
  "str ''Poor grammar or unusual formatting'' \<noteq> str ''No scam patterns detected'' \<and>
   str ''Shortened or suspicious URLs'' \<noteq> str ''No scam patterns detected'' \<and>
   str ''Contains links (verify before clicking)'' \<noteq> str ''No scam patterns detected'' \<and>
   str ''Requests for sensitive personal information'' \<noteq> str ''No scam patterns detected''"
  by (simp add: str_def)

lemma tracks_afterPatterns: "scoreTracksPatterns (afterPatterns B m)"
  unfolding afterPatterns_def
  by (rule tracks_checkPatterns [OF tracks_initial catalog_descriptions])

lemma tracks_checkFormatting:
  "scoreTracksPatterns st \<Longrightarrow> scoreTracksPatterns (checkFormatting B m st)"
  using sentinel_is_no_check_pattern
  by (auto simp: scoreTracksPatterns_def checkFormatting_def)

lemma tracks_checkLinks:
  "scoreTracksPatterns st \<Longrightarrow> scoreTracksPatterns (checkLinks m st)"
  using sentinel_is_no_check_pattern
  by (auto simp: scoreTracksPatterns_def checkLinks_def)

lemma tracks_checkPersonalInfo:
  "scoreTracksPatterns st \<Longrightarrow> scoreTracksPatterns (checkPersonalInfo ml st)"
  using sentinel_is_no_check_pattern
  by (auto simp: scoreTracksPatterns_def checkPersonalInfo_def)

lemma tracks_afterPersonalInfo: "scoreTracksPatterns (afterPersonalInfo B m)"
  unfolding afterPersonalInfo_def afterLinks_def afterFormatting_def
  by (intro tracks_checkPersonalInfo tracks_checkLinks tracks_checkFormatting
      tracks_afterPatterns)

lemma finalScore_is_cap:
  "scoreTracksPatterns st \<Longrightarrow> finalScore m st = min 100 (runningScore st)"
  by (auto simp: scoreTracksPatterns_def finalScore_def Let_def)

lemma riskScore_is_cap:
  "riskScore (analyzeHeuristically B m) = min 100 (runningScore (afterPersonalInfo B m))"
  by (simp add: analyzeHeuristically_def Let_def finalScore_is_cap tracks_afterPersonalInfo)

lemma riskLevel_is_levelOf:
  "riskLevel (analyzeHeuristically B m) = levelOf (riskScore (analyzeHeuristically B m))"
  by (simp add: analyzeHeuristically_def Let_def)

lemma riskScore_bounds:
  "0 \<le> riskScore (analyzeHeuristically B m) \<and> riskScore (analyzeHeuristically B m) \<le> 100"
  using tracks_afterPersonalInfo [of B m]
  by (simp add: riskScore_is_cap scoreTracksPatterns_def)

text \<open>
  C3. For every message, the risk score of the heuristic verdict lies between 0 and 100,
  whatever fired, and the risk level is the function of the score that the thresholds fix:
  low up to 30, medium from 31 to 70, high above 70.
\<close>

theorem score_clamped_level_by_thresholds:
  "0 \<le> riskScore (analyzeHeuristically B m) \<and>
   riskScore (analyzeHeuristically B m) \<le> 100 \<and>
   riskLevel (analyzeHeuristically B m) =
     (if riskScore (analyzeHeuristically B m) \<le> 30 then Low
      else if riskScore (analyzeHeuristically B m) \<le> 70 then Medium
      else High)"
  using riskScore_bounds [of B m] riskLevel_is_levelOf [of B m]
  by (simp add: levelOf_def)

lemma patterns_of_verdict:
  "patterns (analyzeHeuristically B m) =
     (if detectedPatterns (afterPersonalInfo B m) = [] then [str ''No scam patterns detected'']
      else detectedPatterns (afterPersonalInfo B m))"
  by (simp add: analyzeHeuristically_def Let_def)

lemma empty_iff_zero:
  "(detectedPatterns (afterPersonalInfo B m) = []) =
   (riskScore (analyzeHeuristically B m) = 0)"
  using tracks_afterPersonalInfo [of B m]
  by (auto simp: riskScore_is_cap scoreTracksPatterns_def min_def)

lemma patterns_empty_iff_zero_aux:
  "(patterns (analyzeHeuristically B m) = [str ''No scam patterns detected'']) =
   (riskScore (analyzeHeuristically B m) = 0)"
proof -
  have "str ''No scam patterns detected'' \<notin> set (detectedPatterns (afterPersonalInfo B m))"
    using tracks_afterPersonalInfo [of B m] by (simp add: scoreTracksPatterns_def)
  then show ?thesis
    by (auto simp: patterns_of_verdict empty_iff_zero [symmetric])
qed

text \<open>
  C10. In the heuristic scorer the list of detected patterns is empty exactly when the final
  risk score is 0. So the subtraction for a short message with no pattern never changes the
  score, which is the running score capped at 100, and the sentinel
  "No scam patterns detected" is in the verdict, and is all of its patterns, exactly when
  the risk score is 0.
\<close>

theorem patterns_empty_iff_score_zero:
  "(detectedPatterns (afterPersonalInfo B m) = []) =
     (riskScore (analyzeHeuristically B m) = 0) \<and>
   riskScore (analyzeHeuristically B m) = min 100 (runningScore (afterPersonalInfo B m)) \<and>
   (str ''No scam patterns detected'' \<in> set (patterns (analyzeHeuristically B m))) =
     (riskScore (analyzeHeuristically B m) = 0) \<and>
   (patterns (analyzeHeuristically B m) = [str ''No scam patterns detected'']) =
     (riskScore (analyzeHeuristically B m) = 0)"
proof -
  have sentinel:
    "str ''No scam patterns detected'' \<notin> set (detectedPatterns (afterPersonalInfo B m))"
    using tracks_afterPersonalInfo [of B m] by (simp add: scoreTracksPatterns_def)
  have a: "(str ''No scam patterns detected'' \<in> set (patterns (analyzeHeuristically B m))) =
     (riskScore (analyzeHeuristically B m) = 0)"
    using sentinel by (simp add: patterns_of_verdict empty_iff_zero [symmetric])
  have b: "(patterns (analyzeHeuristically B m) = [str ''No scam patterns detected'']) =
     (riskScore (analyzeHeuristically B m) = 0)"
    using sentinel by (auto simp: patterns_of_verdict empty_iff_zero [symmetric])
  show ?thesis
    using empty_iff_zero [of B m] riskScore_is_cap [of B m] a b by blast
qed

section \<open>The link check\<close>

lemma testAny_sublist:
  "testAnyIgnoreCase ls m = list_ex (\<lambda>l. sublist (foldCase l) (foldCase m)) ls"
  by (simp add: testAnyIgnoreCase_def stringIncludes_sublist)

lemma hasShortenedLinks_iff:
  "hasShortenedLinks m =
     (sublist (str ''bit.ly'') (foldCase m) \<or> sublist (str ''tinyurl'') (foldCase m) \<or>
      sublist (str ''goo.gl'') (foldCase m))"
proof -
  have "map foldCase [str ''bit.ly'', str ''tinyurl'', str ''goo.gl''] =
      [str ''bit.ly'', str ''tinyurl'', str ''goo.gl'']"
    by code_simp
  then show ?thesis
    by (simp add: hasShortenedLinks_def testAny_sublist)
qed

lemma hasLinks_iff:
  "hasLinks m =
     (sublist (str ''http://'') (foldCase m) \<or> sublist (str ''https://'') (foldCase m) \<or>
      sublist (str ''www.'') (foldCase m))"
proof -
  have "map foldCase [str ''http://'', str ''https://'', str ''www.''] =
      [str ''http://'', str ''https://'', str ''www.'']"
    by code_simp
  then show ?thesis
    by (simp add: hasLinks_def testAny_sublist)
qed

text \<open>
  C4. For every message, the link check works on the locals as the category loop and the
  formatting check left them. A shortened-link pattern (bit.ly, tinyurl, goo.gl, letters
  in either case) appends "Shortened or suspicious URLs" and adds 20. Otherwise a generic
  URL pattern (http://, https://, www.) together with at least one pattern detected so far
  appends "Contains links (verify before clicking)" and adds 10. Otherwise nothing changes:
  in particular a message with a URL that is not a shortened link, and with no pattern
  detected before the link check, gets no contribution from its link.
\<close>

theorem link_check:
  "hasShortenedLinks m =
     (sublist (str ''bit.ly'') (foldCase m) \<or> sublist (str ''tinyurl'') (foldCase m) \<or>
      sublist (str ''goo.gl'') (foldCase m)) \<and>
   hasLinks m =
     (sublist (str ''http://'') (foldCase m) \<or> sublist (str ''https://'') (foldCase m) \<or>
      sublist (str ''www.'') (foldCase m)) \<and>
   (hasShortenedLinks m \<longrightarrow>
      afterLinks B m = (afterFormatting B m)
        \<lparr>detectedPatterns :=
           detectedPatterns (afterFormatting B m) @ [str ''Shortened or suspicious URLs''],
         runningScore := runningScore (afterFormatting B m) + 20\<rparr>) \<and>
   (\<not> hasShortenedLinks m \<and> hasLinks m \<and> detectedPatterns (afterFormatting B m) \<noteq> [] \<longrightarrow>
      afterLinks B m = (afterFormatting B m)
        \<lparr>detectedPatterns :=
           detectedPatterns (afterFormatting B m) @
             [str ''Contains links (verify before clicking)''],
         runningScore := runningScore (afterFormatting B m) + 10\<rparr>) \<and>
   (\<not> hasShortenedLinks m \<and> hasLinks m \<and> detectedPatterns (afterFormatting B m) = [] \<longrightarrow>
      afterLinks B m = afterFormatting B m) \<and>
   (\<not> hasShortenedLinks m \<and> \<not> hasLinks m \<longrightarrow> afterLinks B m = afterFormatting B m)"
  using hasShortenedLinks_iff [of m] hasLinks_iff [of m]
  by (simp add: afterLinks_def checkLinks_def)

theorem link_check_witness:
  "(hasShortenedLinks (str ''Bit.LY/x'') \<and>
    afterLinks sampleBuiltins (str ''Bit.LY/x'') = (afterFormatting sampleBuiltins (str ''Bit.LY/x''))
      \<lparr>detectedPatterns :=
         detectedPatterns (afterFormatting sampleBuiltins (str ''Bit.LY/x'')) @
           [str ''Shortened or suspicious URLs''],
       runningScore := runningScore (afterFormatting sampleBuiltins (str ''Bit.LY/x'')) + 20\<rparr>) \<and>
   (\<not> hasShortenedLinks (str ''urgent WWW.a.b'') \<and> hasLinks (str ''urgent WWW.a.b'') \<and>
    detectedPatterns (afterFormatting sampleBuiltins (str ''urgent WWW.a.b'')) \<noteq> [] \<and>
    afterLinks sampleBuiltins (str ''urgent WWW.a.b'') =
      (afterFormatting sampleBuiltins (str ''urgent WWW.a.b''))
      \<lparr>detectedPatterns :=
         detectedPatterns (afterFormatting sampleBuiltins (str ''urgent WWW.a.b'')) @
           [str ''Contains links (verify before clicking)''],
       runningScore :=
         runningScore (afterFormatting sampleBuiltins (str ''urgent WWW.a.b'')) + 10\<rparr>) \<and>
   (\<not> hasShortenedLinks (str ''www.a.b'') \<and> hasLinks (str ''www.a.b'') \<and>
    detectedPatterns (afterFormatting sampleBuiltins (str ''www.a.b'')) = [] \<and>
    afterLinks sampleBuiltins (str ''www.a.b'') = afterFormatting sampleBuiltins (str ''www.a.b'')) \<and>
   (\<not> hasShortenedLinks (str ''hello'') \<and> \<not> hasLinks (str ''hello'') \<and>
    afterLinks sampleBuiltins (str ''hello'') = afterFormatting sampleBuiltins (str ''hello''))"
proof -
  have a: "hasShortenedLinks (str ''Bit.LY/x'')"
    by code_simp
  have b: "\<not> hasShortenedLinks (str ''urgent WWW.a.b'') \<and> hasLinks (str ''urgent WWW.a.b'') \<and>
    detectedPatterns (afterFormatting sampleBuiltins (str ''urgent WWW.a.b'')) \<noteq> []"
    by code_simp
  have c: "\<not> hasShortenedLinks (str ''www.a.b'') \<and> hasLinks (str ''www.a.b'') \<and>
    detectedPatterns (afterFormatting sampleBuiltins (str ''www.a.b'')) = []"
    by code_simp
  have d: "\<not> hasShortenedLinks (str ''hello'') \<and> \<not> hasLinks (str ''hello'')"
    by code_simp
  note l1 = link_check [of "str ''Bit.LY/x''" sampleBuiltins, THEN conjunct2, THEN conjunct2,
      THEN conjunct1, THEN mp, OF a]
  note l2 = link_check [of "str ''urgent WWW.a.b''" sampleBuiltins, THEN conjunct2,
      THEN conjunct2, THEN conjunct2, THEN conjunct1, THEN mp, OF b]
  note l3 = link_check [of "str ''www.a.b''" sampleBuiltins, THEN conjunct2, THEN conjunct2,
      THEN conjunct2, THEN conjunct2, THEN conjunct1, THEN mp, OF c]
  note l4 = link_check [of "str ''hello''" sampleBuiltins, THEN conjunct2, THEN conjunct2,
      THEN conjunct2, THEN conjunct2, THEN conjunct2, THEN mp, OF d]
  show ?thesis
    using a b c d l1 l2 l3 l4 by (elim conjE, intro conjI) assumption+
qed

section \<open>Messages with the keyword urgent\<close>

lemma occurrences_pos: "(0 < occurrences k s) = sublist k s"
  by (induction s) (auto simp: sublist_Cons_right)

lemma detected_grows:
  "set (detectedPatterns (afterPatterns B m)) \<subseteq> set (detectedPatterns (afterPersonalInfo B m))"
  by (auto simp: afterPersonalInfo_def afterLinks_def afterFormatting_def
      checkPersonalInfo_def checkLinks_def checkFormatting_def)

lemma score_grows: "runningScore (afterPatterns B m) \<le> runningScore (afterPersonalInfo B m)"
  by (simp add: afterPersonalInfo_def afterLinks_def afterFormatting_def
      checkPersonalInfo_def checkLinks_def checkFormatting_def)

lemma category_term_nonneg:
  "0 \<le> (if keywordsFound B m p = [] then 0 else 15 + 5 * int (length (keywordsFound B m p)))"
  by simp

lemma urgent_found:
  assumes "sublist (str ''urgent'') (toLowerCase B m)"
  shows "str ''urgent'' \<in> set (keywordsFound B m urgentLanguage)"
  using assms by (simp add: keywordsFound_def urgentLanguage_def)

lemma urgent_detected:
  assumes "keywordsAreLowercase B" and "sublist (str ''urgent'') (toLowerCase B m)"
  shows "str ''Urgent or time-pressured language'' \<in> set (detectedPatterns (afterPatterns B m))"
proof -
  have ne: "keywordsFound B m urgentLanguage \<noteq> []"
    using urgent_found [OF assms(2)] by auto
  have d: "description urgentLanguage = str ''Urgent or time-pressured language''"
    by (simp add: urgentLanguage_def)
  have "description urgentLanguage \<in> set (detectedPatterns (afterPatterns B m))"
    by (simp add: afterPatterns_detected [OF assms(1)] catalog_def ne)
  then show ?thesis by (simp only: d)
qed

lemma afterPatterns_score_sum:
  assumes "keywordsAreLowercase B"
  shows "runningScore (afterPatterns B m) =
      (if keywordsFound B m urgentLanguage = [] then 0
       else 15 + 5 * int (length (keywordsFound B m urgentLanguage))) +
      ((if keywordsFound B m paymentRequest = [] then 0
        else 15 + 5 * int (length (keywordsFound B m paymentRequest))) +
       ((if keywordsFound B m impersonation = [] then 0
         else 15 + 5 * int (length (keywordsFound B m impersonation))) +
        ((if keywordsFound B m prizes = [] then 0
          else 15 + 5 * int (length (keywordsFound B m prizes))) +
         (if keywordsFound B m threats = [] then 0
          else 15 + 5 * int (length (keywordsFound B m threats))))))"
  unfolding afterPatterns_score [OF assms] catalog_def
  by (simp del: if_split cong: if_cong)

lemma urgent_scored:
  assumes "keywordsAreLowercase B" and "sublist (str ''urgent'') (toLowerCase B m)"
  shows "20 \<le> runningScore (afterPatterns B m)"
proof -
  have ne: "keywordsFound B m urgentLanguage \<noteq> []"
    using urgent_found [OF assms(2)] by auto
  then have "1 \<le> length (keywordsFound B m urgentLanguage)"
    by (cases "keywordsFound B m urgentLanguage") simp_all
  then have first: "20 \<le> (if keywordsFound B m urgentLanguage = [] then 0
      else 15 + 5 * int (length (keywordsFound B m urgentLanguage)))"
    using ne by simp
  show ?thesis
    using first afterPatterns_score_sum [OF assms(1), of m]
      category_term_nonneg [of B m paymentRequest]
      category_term_nonneg [of B m impersonation] category_term_nonneg [of B m prizes]
      category_term_nonneg [of B m threats]
    by linarith
qed

lemma only_urgent_score:
  assumes "keywordsAreLowercase B" and "urgentIsOnlySignal B m"
  shows "runningScore (afterPersonalInfo B m) = 20"
proof -
  have "runningScore (afterPatterns B m) = 20"
    using assms(2) by (simp add: afterPatterns_score_sum [OF assms(1)] urgentIsOnlySignal_def)
  then show ?thesis
    using assms(2)
    by (simp add: urgentIsOnlySignal_def formattingAnomaly_def afterPersonalInfo_def
        afterLinks_def afterFormatting_def checkPersonalInfo_def checkLinks_def
        checkFormatting_def)
qed

text \<open>
  C7. For every message whose lowercased form contains "urgent" exactly once, the patterns
  of the heuristic verdict include "Urgent or time-pressured language" and the risk score
  is at least 20. The level is low unless the score is over 30, and the score is over 30
  only through other signals: with "urgent" as the one signal the score is 20 and the level
  is low.
\<close>

theorem urgent_once:
  assumes "keywordsAreLowercase B"
    and "occurrences (str ''urgent'') (toLowerCase B m) = 1"
  shows "str ''Urgent or time-pressured language'' \<in>
           set (patterns (analyzeHeuristically B m)) \<and>
         20 \<le> riskScore (analyzeHeuristically B m) \<and>
         (riskLevel (analyzeHeuristically B m) = Low) =
           (riskScore (analyzeHeuristically B m) \<le> 30) \<and>
         (urgentIsOnlySignal B m \<longrightarrow>
            riskScore (analyzeHeuristically B m) = 20 \<and>
            riskLevel (analyzeHeuristically B m) = Low)"
proof -
  have sub: "sublist (str ''urgent'') (toLowerCase B m)"
    using assms(2) occurrences_pos [of "str ''urgent''" "toLowerCase B m"] by simp
  have det: "str ''Urgent or time-pressured language'' \<in>
      set (detectedPatterns (afterPersonalInfo B m))"
    using urgent_detected [OF assms(1) sub] detected_grows [of B m] by blast
  then have ne: "detectedPatterns (afterPersonalInfo B m) \<noteq> []"
    by auto
  have p: "str ''Urgent or time-pressured language'' \<in>
      set (patterns (analyzeHeuristically B m))"
    using det ne by (simp add: patterns_of_verdict)
  have s: "20 \<le> riskScore (analyzeHeuristically B m)"
    using urgent_scored [OF assms(1) sub] score_grows [of B m] by (simp add: riskScore_is_cap)
  have l: "(riskLevel (analyzeHeuristically B m) = Low) =
           (riskScore (analyzeHeuristically B m) \<le> 30)"
    by (simp add: riskLevel_is_levelOf levelOf_def)
  have o: "urgentIsOnlySignal B m \<longrightarrow>
            riskScore (analyzeHeuristically B m) = 20 \<and>
            riskLevel (analyzeHeuristically B m) = Low"
    by (simp add: riskLevel_is_levelOf levelOf_def riskScore_is_cap
        only_urgent_score [OF assms(1)])
  from p s l o show ?thesis by (intro conjI)
qed

text \<open>
  The instances: "URGENT" in capitals is the one signal of its message, score 20; in
  "urgent luc", Kelvin sign, "y" the lowercased message also holds "lucky", which is
  another signal, and the score is 40, level medium.
\<close>

theorem urgent_once_witness:
  "keywordsAreLowercase sampleBuiltins \<and>
   occurrences (str ''urgent'') (toLowerCase sampleBuiltins (str ''URGENT'')) = 1 \<and>
   urgentIsOnlySignal sampleBuiltins (str ''URGENT'') \<and>
   str ''Urgent or time-pressured language'' \<in>
     set (patterns (analyzeHeuristically sampleBuiltins (str ''URGENT''))) \<and>
   riskScore (analyzeHeuristically sampleBuiltins (str ''URGENT'')) = 20 \<and>
   riskLevel (analyzeHeuristically sampleBuiltins (str ''URGENT'')) = Low \<and>
   occurrences (str ''urgent'') (toLowerCase sampleBuiltins kelvinLuckyMessage) = 1 \<and>
   \<not> urgentIsOnlySignal sampleBuiltins kelvinLuckyMessage \<and>
   riskScore (analyzeHeuristically sampleBuiltins kelvinLuckyMessage) = 40 \<and>
   riskLevel (analyzeHeuristically sampleBuiltins kelvinLuckyMessage) \<noteq> Low"
proof -
  have h: "keywordsAreLowercase sampleBuiltins"
    by code_simp
  have a: "occurrences (str ''urgent'') (toLowerCase sampleBuiltins (str ''URGENT'')) = 1"
    by code_simp
  have b: "urgentIsOnlySignal sampleBuiltins (str ''URGENT'')"
    by code_simp
  have a': "occurrences (str ''urgent'') (toLowerCase sampleBuiltins kelvinLuckyMessage) = 1"
    by code_simp
  have b': "\<not> urgentIsOnlySignal sampleBuiltins kelvinLuckyMessage"
    by code_simp
  have c': "riskScore (analyzeHeuristically sampleBuiltins kelvinLuckyMessage) = 40"
    by code_simp
  note u = urgent_once [OF h a]
  note u1 = u [THEN conjunct1]
  note u4 = u [THEN conjunct2, THEN conjunct2, THEN conjunct2, THEN mp, OF b]
  note v3 = urgent_once [OF h a', THEN conjunct2, THEN conjunct2, THEN conjunct1]
  have d': "riskLevel (analyzeHeuristically sampleBuiltins kelvinLuckyMessage) \<noteq> Low"
    using v3 c' by simp
  show ?thesis
    using h a b u1 u4 a' b' c' d' by (elim conjE, intro conjI) assumption+
qed

subsection \<open>Messages with no keyword\<close>

lemma no_matches_no_category:
  assumes "keywordsAreLowercase B" and "noKeywordMatches B m"
  shows "detectedPatterns (afterPatterns B m) = []"
proof -
  have "\<forall>p\<in>set catalog. keywordsFound B m p = []"
    using assms(2) by (simp add: noKeywordMatches_def list_all_iff)
  then have "filter (\<lambda>p. keywordsFound B m p \<noteq> []) catalog = []"
    by (simp add: filter_empty_conv)
  then show ?thesis
    by (simp add: afterPatterns_detected [OF assms(1)])
qed

lemma no_matches_no_personal:
  assumes "noKeywordMatches B m"
  shows "\<not> hasPersonalInfoRequest (toLowerCase B m)"
  using assms
  by (simp add: noKeywordMatches_def hasPersonalInfoRequest_def stringIncludes_sublist
      list_all_iff list_ex_iff)

lemma no_matches_score:
  assumes "keywordsAreLowercase B" and "noKeywordMatches B m"
  shows "runningScore (afterPersonalInfo B m) =
      (if formattingAnomaly B m then 10 else 0) +
      (if hasShortenedLinks m then 20
       else if hasLinks m \<and> formattingAnomaly B m then 10 else 0)"
    and "(detectedPatterns (afterPersonalInfo B m) = []) =
      (\<not> formattingAnomaly B m \<and> \<not> hasShortenedLinks m)"
proof -
  have d: "detectedPatterns (afterPatterns B m) = []"
    by (rule no_matches_no_category [OF assms])
  then have s: "runningScore (afterPatterns B m) = 0"
    using tracks_afterPatterns [of B m] by (simp add: scoreTracksPatterns_def)
  note p = no_matches_no_personal [OF assms(2)]
  show "runningScore (afterPersonalInfo B m) =
      (if formattingAnomaly B m then 10 else 0) +
      (if hasShortenedLinks m then 20
       else if hasLinks m \<and> formattingAnomaly B m then 10 else 0)"
    using d s p
    by (simp add: formattingAnomaly_def afterPersonalInfo_def afterLinks_def
        afterFormatting_def checkPersonalInfo_def checkLinks_def checkFormatting_def)
  show "(detectedPatterns (afterPersonalInfo B m) = []) =
      (\<not> formattingAnomaly B m \<and> \<not> hasShortenedLinks m)"
    using d s p
    by (simp add: formattingAnomaly_def afterPersonalInfo_def afterLinks_def
        afterFormatting_def checkPersonalInfo_def checkLinks_def checkFormatting_def)
qed

text \<open>
  C8, as amended. For every message in which no catalog keyword and no
  sensitive-information keyword occurs, of any length and so also when it is shorter than
  50 code units, the heuristic verdict has level low and a score of at most 30: 10 for a
  formatting anomaly, 20 for a shortened-link pattern, 10 for another link next to a
  formatting anomaly. The score is 0, and the patterns are the single entry
  "No scam patterns detected", exactly when the message has neither a formatting anomaly
  nor a shortened-link pattern.
\<close>

theorem no_keyword_message:
  assumes "keywordsAreLowercase B" and "noKeywordMatches B m"
  shows "riskLevel (analyzeHeuristically B m) = Low \<and>
         riskScore (analyzeHeuristically B m) \<le> 30 \<and>
         riskScore (analyzeHeuristically B m) =
           (if formattingAnomaly B m then 10 else 0) +
           (if hasShortenedLinks m then 20
            else if hasLinks m \<and> formattingAnomaly B m then 10 else 0) \<and>
         (riskScore (analyzeHeuristically B m) = 0) =
           (\<not> formattingAnomaly B m \<and> \<not> hasShortenedLinks m) \<and>
         (patterns (analyzeHeuristically B m) = [str ''No scam patterns detected'']) =
           (\<not> formattingAnomaly B m \<and> \<not> hasShortenedLinks m)"
proof -
  note n = no_matches_score [OF assms]
  have s: "riskScore (analyzeHeuristically B m) =
           (if formattingAnomaly B m then 10 else 0) +
           (if hasShortenedLinks m then 20
            else if hasLinks m \<and> formattingAnomaly B m then 10 else 0)"
    by (simp add: riskScore_is_cap n(1))
  then have b: "riskScore (analyzeHeuristically B m) \<le> 30"
    by (simp split: if_splits)
  then have l: "riskLevel (analyzeHeuristically B m) = Low"
    by (simp add: riskLevel_is_levelOf levelOf_def)
  have z: "(riskScore (analyzeHeuristically B m) = 0) =
           (\<not> formattingAnomaly B m \<and> \<not> hasShortenedLinks m)"
    using n(2) empty_iff_zero [of B m] by simp
  have p: "(patterns (analyzeHeuristically B m) = [str ''No scam patterns detected'']) =
           (\<not> formattingAnomaly B m \<and> \<not> hasShortenedLinks m)"
    using z patterns_empty_iff_zero_aux by simp
  from l b s z p show ?thesis by (intro conjI)
qed

text \<open>
  The instances: three words of four small E with acute are no capitals, score 0; three
  no-break spaces are a run of white space, score 10, level low.
\<close>

theorem no_keyword_message_witness:
  "keywordsAreLowercase sampleBuiltins \<and>
   noKeywordMatches sampleBuiltins accentedMessage \<and>
   riskScore (analyzeHeuristically sampleBuiltins accentedMessage) = 0 \<and>
   riskLevel (analyzeHeuristically sampleBuiltins accentedMessage) = Low \<and>
   patterns (analyzeHeuristically sampleBuiltins accentedMessage) =
     [str ''No scam patterns detected''] \<and>
   noKeywordMatches sampleBuiltins nbspMessage \<and>
   riskScore (analyzeHeuristically sampleBuiltins nbspMessage) = 10 \<and>
   riskLevel (analyzeHeuristically sampleBuiltins nbspMessage) = Low"
proof -
  have h: "keywordsAreLowercase sampleBuiltins"
    by code_simp
  have a: "noKeywordMatches sampleBuiltins accentedMessage"
    by code_simp
  have a1: "\<not> formattingAnomaly sampleBuiltins accentedMessage \<and>
      \<not> hasShortenedLinks accentedMessage"
    by code_simp
  have b: "noKeywordMatches sampleBuiltins nbspMessage"
    by code_simp
  have b1: "formattingAnomaly sampleBuiltins nbspMessage \<and> \<not> hasShortenedLinks nbspMessage \<and>
      \<not> hasLinks nbspMessage"
    by code_simp
  note t = no_keyword_message [OF h a]
  note u = no_keyword_message [OF h b]
  have t0: "riskScore (analyzeHeuristically sampleBuiltins accentedMessage) = 0"
    using t [THEN conjunct2, THEN conjunct2, THEN conjunct2, THEN conjunct1] a1 by simp
  have t1: "patterns (analyzeHeuristically sampleBuiltins accentedMessage) =
      [str ''No scam patterns detected'']"
    using t [THEN conjunct2, THEN conjunct2, THEN conjunct2, THEN conjunct2] a1 by simp
  have u0: "riskScore (analyzeHeuristically sampleBuiltins nbspMessage) = 10"
    using u [THEN conjunct2, THEN conjunct2, THEN conjunct1] b1 by simp
  show ?thesis
    using h a t0 t [THEN conjunct1] t1 b u0 u [THEN conjunct1]
    by (intro conjI)
qed

text \<open>
  C8 as stated fails: "Hi!!!" has 5 code units and no keyword, but its three exclamation
  marks are a formatting anomaly, so its score is 10 and its one pattern is
  "Poor grammar or unusual formatting".
\<close>

theorem short_clean_message_counterexample:
  "\<not> (noKeywordMatches sampleBuiltins (str ''Hi!!!'') \<and> length (str ''Hi!!!'') < 50 \<longrightarrow>
      riskScore (analyzeHeuristically sampleBuiltins (str ''Hi!!!'')) = 0 \<and>
      riskLevel (analyzeHeuristically sampleBuiltins (str ''Hi!!!'')) = Low \<and>
      patterns (analyzeHeuristically sampleBuiltins (str ''Hi!!!'')) =
        [str ''No scam patterns detected''])"
  by code_simp

section \<open>The entry point\<close>

lemma askRemote_accepts:
  "askRemote B gen parse m = Inr v \<Longrightarrow> hasNumericScore v \<and> hasTierValue v"
  by (auto simp: askRemote_def hasNumericScore_def hasTierValue_def Let_def
      split: option.splits sum.splits if_splits)

lemma askRemote_rejects:
  assumes "gen (buildPrompt m) = Some reply" and "parse (trim B (removeFences reply)) = Some a"
    and "\<not> hasNumericScore a \<or> \<not> hasTierValue a"
  shows "\<exists>e. askRemote B gen parse m = Inl e"
  using assms
  by (auto simp: askRemote_def hasNumericScore_def hasTierValue_def Let_def
      split: option.splits sum.splits if_splits)

lemma analyzeMessage_on_error:
  "askRemote B gen parse m = Inl e \<Longrightarrow>
   analyzeMessage B key gen parse m = Inr (toObject (analyzeHeuristically B m))"
  by (simp add: analyzeMessage_def)

text \<open>
  C2. For every message, credential, service and parser, the promise of the entry point
  resolves with a verdict and is never rejected. When the credential is absent, when the
  call to the service throws, when the response does not parse, and when the parsed
  response has no score of type number or no tier value, that verdict is exactly the one
  the heuristic path computes for the message.
\<close>

theorem analyzeMessage_never_fails:
  "(\<exists>v. analyzeMessage B key gen parse m = Inr v) \<and>
   (credentialMissing key \<longrightarrow>
      analyzeMessage B key gen parse m = Inr (toObject (analyzeHeuristically B m))) \<and>
   (gen (buildPrompt m) = None \<longrightarrow>
      analyzeMessage B key gen parse m = Inr (toObject (analyzeHeuristically B m))) \<and>
   (gen (buildPrompt m) = Some reply \<and> parse (trim B (removeFences reply)) = None \<longrightarrow>
      analyzeMessage B key gen parse m = Inr (toObject (analyzeHeuristically B m))) \<and>
   (gen (buildPrompt m) = Some reply \<and> parse (trim B (removeFences reply)) = Some a \<and>
    (\<not> hasNumericScore a \<or> \<not> hasTierValue a) \<longrightarrow>
      analyzeMessage B key gen parse m = Inr (toObject (analyzeHeuristically B m)))"
proof (intro conjI impI)
  show "\<exists>v. analyzeMessage B key gen parse m = Inr v"
    by (simp add: analyzeMessage_def split: sum.splits)
next
  assume "credentialMissing key"
  then show "analyzeMessage B key gen parse m = Inr (toObject (analyzeHeuristically B m))"
    by (simp add: analyzeMessage_def)
next
  assume "gen (buildPrompt m) = None"
  then have "askRemote B gen parse m = Inl RemoteCallFailed"
    by (simp add: askRemote_def)
  then show "analyzeMessage B key gen parse m = Inr (toObject (analyzeHeuristically B m))"
    by (rule analyzeMessage_on_error)
next
  assume "gen (buildPrompt m) = Some reply \<and> parse (trim B (removeFences reply)) = None"
  then have "askRemote B gen parse m = Inl SyntaxError"
    by (simp add: askRemote_def)
  then show "analyzeMessage B key gen parse m = Inr (toObject (analyzeHeuristically B m))"
    by (rule analyzeMessage_on_error)
next
  assume "gen (buildPrompt m) = Some reply \<and> parse (trim B (removeFences reply)) = Some a \<and>
    (\<not> hasNumericScore a \<or> \<not> hasTierValue a)"
  then obtain e where "askRemote B gen parse m = Inl e"
    using askRemote_rejects [of gen m reply parse B a] by blast
  then show "analyzeMessage B key gen parse m = Inr (toObject (analyzeHeuristically B m))"
    by (rule analyzeMessage_on_error)
qed

theorem analyzeMessage_never_fails_witness:
  \<open>analyzeMessage sampleBuiltins None alwaysThrows alwaysThrows (str ''hello'') =
     Inr (toObject (analyzeHeuristically sampleBuiltins (str ''hello''))) \<and>
   analyzeMessage sampleBuiltins (Some (str ''key'')) alwaysThrows alwaysThrows (str ''hello'') =
     Inr (toObject (analyzeHeuristically sampleBuiltins (str ''hello''))) \<and>
   analyzeMessage sampleBuiltins (Some (str ''key'')) (alwaysReturns (str ''{"riskScore": ''))
       alwaysThrows (str ''hello'') =
     Inr (toObject (analyzeHeuristically sampleBuiltins (str ''hello''))) \<and>
   analyzeMessage sampleBuiltins (Some (str ''key''))
       (alwaysReturns (str ''{"riskLevel": "high"}''))
       (alwaysReturns (JObject [(str ''riskLevel'', JString (str ''high''))])) (str ''hello'') =
     Inr (toObject (analyzeHeuristically sampleBuiltins (str ''hello'')))\<close>
proof -
  have a: "credentialMissing None"
    by (simp add: credentialMissing_def)
  have b: "alwaysThrows (buildPrompt (str ''hello'')) = (None :: jsString option)"
    by (simp add: alwaysThrows_def)
  have c: \<open>alwaysReturns (str ''{"riskScore": '') (buildPrompt (str ''hello'')) =
        Some (str ''{"riskScore": '') \<and>
      alwaysThrows (trim sampleBuiltins (removeFences (str ''{"riskScore": ''))) =
        (None :: js_value option)\<close>
    by (simp add: alwaysReturns_def alwaysThrows_def)
  have d: \<open>alwaysReturns (str ''{"riskLevel": "high"}'') (buildPrompt (str ''hello'')) =
        Some (str ''{"riskLevel": "high"}'') \<and>
      alwaysReturns (JObject [(str ''riskLevel'', JString (str ''high''))])
        (trim sampleBuiltins (removeFences (str ''{"riskLevel": "high"}''))) =
        Some (JObject [(str ''riskLevel'', JString (str ''high''))]) \<and>
      (\<not> hasNumericScore (JObject [(str ''riskLevel'', JString (str ''high''))]) \<or>
       \<not> hasTierValue (JObject [(str ''riskLevel'', JString (str ''high''))]))\<close>
    by (simp add: alwaysReturns_def hasNumericScore_def str_def)
  note t1 = analyzeMessage_never_fails
      [of sampleBuiltins None alwaysThrows alwaysThrows "str ''hello''",
      THEN conjunct2, THEN conjunct1, THEN mp, OF a]
  note t2 = analyzeMessage_never_fails
      [of sampleBuiltins "Some (str ''key'')" alwaysThrows alwaysThrows "str ''hello''",
      THEN conjunct2, THEN conjunct2, THEN conjunct1, THEN mp, OF b]
  note t3 = analyzeMessage_never_fails
      [of sampleBuiltins "Some (str ''key'')" \<open>alwaysReturns (str ''{"riskScore": '')\<close>
        alwaysThrows "str ''hello''" \<open>str ''{"riskScore": ''\<close>,
      THEN conjunct2, THEN conjunct2, THEN conjunct2, THEN conjunct1, THEN mp, OF c]
  note t4 = analyzeMessage_never_fails
      [of sampleBuiltins "Some (str ''key'')" \<open>alwaysReturns (str ''{"riskLevel": "high"}'')\<close>
        "alwaysReturns (JObject [(str ''riskLevel'', JString (str ''high''))])" "str ''hello''"
        \<open>str ''{"riskLevel": "high"}''\<close> "JObject [(str ''riskLevel'', JString (str ''high''))]",
      THEN conjunct2, THEN conjunct2, THEN conjunct2, THEN conjunct2, THEN mp, OF d]
  show ?thesis
    by (intro conjI) (rule t1 t2 t3 t4)+
qed

subsection \<open>The invariants of the verdict\<close>

lemma explain_nonempty: "explain B score level detected \<noteq> []"
  by (simp add: explain_def warningSign_def str_def)

lemma heuristic_verdict_invariant: "verdictInvariant (toObject (analyzeHeuristically B m))"
proof -
  have e: "explanation (analyzeHeuristically B m) \<noteq> []"
    by (simp add: analyzeHeuristically_def Let_def explain_nonempty)
  have l: "levelName (riskLevel (analyzeHeuristically B m)) = str ''low'' \<or>
      levelName (riskLevel (analyzeHeuristically B m)) = str ''medium'' \<or>
      levelName (riskLevel (analyzeHeuristically B m)) = str ''high''"
    by (cases "riskLevel (analyzeHeuristically B m)") (simp_all add: levelName_def)
  have k: "str ''riskLevel'' \<noteq> str ''riskScore'' \<and> str ''explanation'' \<noteq> str ''riskScore'' \<and>
      str ''explanation'' \<noteq> str ''riskLevel''"
    by (simp add: str_def)
  show ?thesis
    using e l k riskScore_bounds [of B m]
    by (simp add: verdictInvariant_def toObject_def)
qed

text \<open>
  C9, as amended. Every verdict of the heuristic path has an integer score from 0 to 100,
  one of the levels low, medium and high, and an explanation that is not empty. Every
  verdict the entry point returns is either that of the heuristic path or a parsed
  response, returned as it was parsed, of which only this is known: its score has type
  number and its tier is a truthy value.
\<close>

theorem verdict_invariants_by_path:
  "verdictInvariant (toObject (analyzeHeuristically B m)) \<and>
   (analyzeMessage B key gen parse m = Inr v \<longrightarrow>
      v = toObject (analyzeHeuristically B m) \<or>
      (askRemote B gen parse m = Inr v \<and> hasNumericScore v \<and> hasTierValue v))"
proof (intro conjI impI)
  show "verdictInvariant (toObject (analyzeHeuristically B m))"
    by (rule heuristic_verdict_invariant)
next
  assume r: "analyzeMessage B key gen parse m = Inr v"
  show "v = toObject (analyzeHeuristically B m) \<or>
      (askRemote B gen parse m = Inr v \<and> hasNumericScore v \<and> hasTierValue v)"
  proof (cases "askRemote B gen parse m")
    case (Inl e)
    with r show ?thesis
      by (simp add: analyzeMessage_def split: if_splits)
  next
    case (Inr a)
    with r have "v = toObject (analyzeHeuristically B m) \<or> v = a"
      by (auto simp: analyzeMessage_def split: if_splits)
    with Inr askRemote_accepts [of B gen parse m a] show ?thesis
      by blast
  qed
qed

text \<open>
  C9 as stated fails: with a credential present, a response that parses to an object with
  score 150 and tier "banana" and no explanation passes the check of the entry point and
  is returned as the verdict.
\<close>

theorem remote_verdict_counterexample:
  \<open>analyzeMessage sampleBuiltins (Some (str ''key''))
      (alwaysReturns (str ''{"riskScore": 150, "riskLevel": "banana"}''))
      (alwaysReturns (JObject [(str ''riskScore'', JNumber 150),
                               (str ''riskLevel'', JString (str ''banana''))]))
      (str ''hello'') =
     Inr (JObject [(str ''riskScore'', JNumber 150),
                   (str ''riskLevel'', JString (str ''banana''))]) \<and>
   \<not> verdictInvariant
       (JObject [(str ''riskScore'', JNumber 150),
                 (str ''riskLevel'', JString (str ''banana''))])\<close>
  by (simp add: analyzeMessage_def askRemote_def credentialMissing_def alwaysReturns_def
      verdictInvariant_def str_def)

theorem verdict_invariants_by_path_witness:
  \<open>analyzeMessage sampleBuiltins (Some (str ''key''))
      (alwaysReturns (str ''{"riskScore": 55.5, "riskLevel": "medium"}''))
      (alwaysReturns (JObject [(str ''riskScore'', JNumber 55.5),
                               (str ''riskLevel'', JString (str ''medium''))]))
      (str ''hello'') =
     Inr (JObject [(str ''riskScore'', JNumber 55.5),
                   (str ''riskLevel'', JString (str ''medium''))]) \<and>
   hasNumericScore (JObject [(str ''riskScore'', JNumber 55.5),
                             (str ''riskLevel'', JString (str ''medium''))]) \<and>
   hasTierValue (JObject [(str ''riskScore'', JNumber 55.5),
                          (str ''riskLevel'', JString (str ''medium''))]) \<and>
   verdictInvariant (toObject (analyzeHeuristically sampleBuiltins (str ''hello'')))\<close>
proof -
  let ?v = "JObject [(str ''riskScore'', JNumber 55.5),
                     (str ''riskLevel'', JString (str ''medium''))]"
  let ?g = \<open>alwaysReturns (str ''{"riskScore": 55.5, "riskLevel": "medium"}'')\<close>
  have r: "analyzeMessage sampleBuiltins (Some (str ''key'')) ?g (alwaysReturns ?v)
      (str ''hello'') = Inr ?v"
    by (simp add: analyzeMessage_def askRemote_def credentialMissing_def alwaysReturns_def
        str_def)
  have n: "\<not> verdictInvariant ?v"
    by (simp add: verdictInvariant_def str_def)
  note t = verdict_invariants_by_path
      [of sampleBuiltins "str ''hello''" "Some (str ''key'')" ?g "alwaysReturns ?v" ?v]
  from t have h: "verdictInvariant (toObject (analyzeHeuristically sampleBuiltins (str ''hello'')))"
    by (rule conjunct1)
  from t [THEN conjunct2, THEN mp, OF r] n h
  have "hasNumericScore ?v \<and> hasTierValue ?v"
    by metis
  with r h show ?thesis
    by (intro conjI) (erule conjunct1 conjunct2 | assumption)+
qed

end
